theory Spec2Isabelle
  imports Main "HOL-Library.Word" "HOL-Library.Sublist"
begin

section \<open>JavaScript strings\<close>

text \<open>
  A JavaScript string is a sequence of UTF-16 code units. String literals of the source
  are ASCII and are written through \<open>js\<close>.
\<close>

type_synonym jschar = "16 word"
type_synonym jsstring = "jschar list"

definition js :: "string \<Rightarrow> jsstring" where
  "js s = map of_char s"

text \<open>
  \<open>String.prototype.trim\<close> removes the code units of the ECMAScript productions
  WhiteSpace and LineTerminator from both ends.
\<close>

definition isWhiteSpace :: "jschar \<Rightarrow> bool" where
  "isWhiteSpace c \<longleftrightarrow>
     c \<in> {0x09, 0x0A, 0x0B, 0x0C, 0x0D, 0x20, 0xA0, 0x1680, 0x2028, 0x2029, 0x202F,
          0x205F, 0x3000, 0xFEFF}
     \<or> (0x2000 \<le> c \<and> c \<le> 0x200A)"

definition trim :: "jsstring \<Rightarrow> jsstring" where
  "trim s = rev (dropWhile isWhiteSpace (rev (dropWhile isWhiteSpace s)))"

text \<open>
  \<open>s.split(sep)\<close> for a string separator: the pieces between the non-overlapping
  occurrences of \<open>sep\<close>, found from left to right. \<open>cur\<close> holds the current piece,
  reversed. An empty separator splits into single code units.
\<close>

function split_go :: "jsstring \<Rightarrow> jsstring \<Rightarrow> jsstring \<Rightarrow> jsstring list" where
  "split_go sep cur [] = [rev cur]"
| "split_go sep cur (c # cs) =
     (if sep \<noteq> [] \<and> prefix sep (c # cs)
      then rev cur # split_go sep [] (drop (length sep) (c # cs))
      else split_go sep (c # cur) cs)"
  by pat_completeness auto
termination
  by (relation "measure (\<lambda>(sep, cur, s). length s)") auto

definition split :: "jsstring \<Rightarrow> jsstring \<Rightarrow> jsstring list" where
  "split s sep = (if sep = [] then map (\<lambda>c. [c]) s else split_go sep [] s)"

section \<open>Route discovery (build time)\<close>

subsection \<open>Configuration values\<close>

text \<open>
  \<open>scullyConfig.extraRoutes\<close> is an arbitrary JavaScript value at run time. A promise
  carries its identity (\<open>Array.prototype.includes\<close> compares objects by reference) and
  what it settles to: \<open>Some v\<close> when fulfilled with \<open>v\<close>, \<open>None\<close> when rejected. Numbers
  are kept to the integers.
\<close>

datatype jsval =
    Undefined
  | Null
  | Bool bool
  | Num int
  | Str jsstring
  | Arr "jsval list"
  | Promise nat "jsval option"
  | Obj nat

datatype error = Rejected | TypeError | SyntaxError | FetchError | ParserError

datatype log =
    WarnExtraRoutesType string
  | WarnNoTsconfig jsstring
  | ConsoleError error
  | ErrorReadingRoutes

fun truthy :: "jsval \<Rightarrow> bool" where
  "truthy Undefined = False"
| "truthy Null = False"
| "truthy (Bool b) = b"
| "truthy (Num n) = (n \<noteq> 0)"
| "truthy (Str s) = (s \<noteq> [])"
| "truthy _ = True"

fun typeof :: "jsval \<Rightarrow> string" where
  "typeof Undefined = ''undefined''"
| "typeof (Bool b) = ''boolean''"
| "typeof (Num n) = ''number''"
| "typeof (Str s) = ''string''"
| "typeof _ = ''object''"

text \<open>The tests \<open>isPromise\<close> and \<open>Array.isArray\<close> of the source.\<close>

fun isPromise :: "jsval \<Rightarrow> bool" where
  "isPromise (Promise i v) = True"
| "isPromise _ = False"

fun isArray :: "jsval \<Rightarrow> bool" where
  "isArray (Arr xs) = True"
| "isArray _ = False"

text \<open>
  The comparison of \<open>includes\<close> (SameValueZero): primitives by value, objects by
  reference. Arrays have no identity in this model and count as distinct objects; they
  never reach the result of \<open>addExtraRoutes\<close>.
\<close>

fun sameValueZero :: "jsval \<Rightarrow> jsval \<Rightarrow> bool" where
  "sameValueZero (Promise i v) y = (case y of Promise j w \<Rightarrow> i = j | _ \<Rightarrow> False)"
| "sameValueZero (Arr xs) y = False"
| "sameValueZero x y = (x = y)"

definition includes_js :: "jsval list \<Rightarrow> jsval \<Rightarrow> bool" where
  "includes_js xs r = list_ex (\<lambda>x. sameValueZero x r) xs"

subsection \<open>addExtraRoutes\<close>

text \<open>The \<open>forEach\<close> that fills \<open>workList\<close> from an array, skipping duplicates.\<close>

fun fillWorkList :: "jsval list \<Rightarrow> jsval list \<Rightarrow> jsval list" where
  "fillWorkList workList [] = workList"
| "fillWorkList workList (r # rs) =
     (if includes_js workList r then fillWorkList workList rs
      else fillWorkList (workList @ [r]) rs)"

text \<open>The inner \<open>x.forEach\<close>: the strings of a resolved array.\<close>

fun pushStrings :: "jsstring list \<Rightarrow> jsval list \<Rightarrow> jsstring list" where
  "pushStrings result [] = result"
| "pushStrings result (Str s # xs) = pushStrings (result @ [s]) xs"
| "pushStrings result (x # xs) = pushStrings result xs"

text \<open>The \<open>for ... of\<close> loop over \<open>workList\<close>; awaiting a rejected promise throws.\<close>

fun collectRoutes :: "jsstring list \<Rightarrow> jsval list \<Rightarrow> error + jsstring list" where
  "collectRoutes result [] = Inr result"
| "collectRoutes result (Str s # rs) = collectRoutes (result @ [s]) rs"
| "collectRoutes result (Promise i None # rs) = Inl Rejected"
| "collectRoutes result (Promise i (Some (Str s)) # rs) = collectRoutes (result @ [s]) rs"
| "collectRoutes result (Promise i (Some (Arr xs)) # rs) =
     collectRoutes (pushStrings result xs) rs"
| "collectRoutes result (r # rs) = collectRoutes result rs"

text \<open>
  \<open>addExtraRoutes\<close>, on the configured value. The result is the list of routes and the
  warnings logged. In the promise branch \<open>workList.concat(outerResult)\<close> builds a new
  array that is dropped, so \<open>workList\<close> stays empty there.
\<close>

definition addExtraRoutes :: "jsval \<Rightarrow> error + (jsstring list \<times> log list)" where
  "addExtraRoutes extraRoutes =
     (if \<not> truthy extraRoutes then Inr ([], [])
      else case extraRoutes of
        Str s \<Rightarrow> Inr ([s], [])
      | Promise i None \<Rightarrow> Inl Rejected
      | Promise i (Some (Str s)) \<Rightarrow> Inr ([s], [])
      | Promise i (Some outerResult) \<Rightarrow>
          (case collectRoutes [] [] of Inl e \<Rightarrow> Inl e | Inr result \<Rightarrow> Inr (result, []))
      | Arr rs \<Rightarrow>
          (case collectRoutes [] (fillWorkList [] rs) of
             Inl e \<Rightarrow> Inl e
           | Inr result \<Rightarrow> Inr (result, []))
      | _ \<Rightarrow> Inr ([], [WarnExtraRoutesType (typeof extraRoutes)]))"

subsection \<open>traverseAppRoutes\<close>

text \<open>
  The configuration and the helpers imported from outside the file: \<open>path.join\<close>,
  \<open>existFolder\<close> and the route parser of guess-parser (its result already mapped to the
  paths; \<open>Inl\<close> when it throws).
\<close>

record config =
  extraRoutes :: jsval
  excludedFiles :: "jsstring list option"
  sge :: bool
  join :: "jsstring \<Rightarrow> jsstring \<Rightarrow> jsstring"
  existFolder :: "jsstring \<Rightarrow> bool"
  parseAngularRoutes :: "jsstring \<Rightarrow> jsstring list \<Rightarrow> error + jsstring list"

text \<open>The \<open>try\<close> block with its \<open>catch\<close>: the routes read from the source, and the log.\<close>

definition staticRoutes :: "config \<Rightarrow> jsstring \<Rightarrow> jsstring list \<times> log list" where
  "staticRoutes cfg appRootFolder =
     (let excluded = (case excludedFiles cfg of Some fs \<Rightarrow> fs | None \<Rightarrow> []);
          file1 = join cfg appRootFolder (js ''tsconfig.app.json'');
          file2 = (if \<not> existFolder cfg file1
                   then join cfg appRootFolder (js ''../tsconfig.app.json'') else file1);
          file3 = (if \<not> existFolder cfg file2
                   then join cfg appRootFolder (js ''../../tsconfig.app.json'') else file2);
          source = (if \<not> existFolder cfg file3 then appRootFolder else file3);
          warned = (if \<not> existFolder cfg file3 then [WarnNoTsconfig file3] else [])
      in case parseAngularRoutes cfg source excluded of
           Inr routes \<Rightarrow> (routes, warned)
         | Inl e \<Rightarrow>
             ([], warned @ (if sge cfg then [ConsoleError e] else []) @ [ErrorReadingRoutes]))"

definition isRoot :: "jsstring \<Rightarrow> bool" where
  "isRoot r \<longleftrightarrow> trim r = [] \<or> trim r = js ''/''"

definition traverseAppRoutes :: "config \<Rightarrow> jsstring \<Rightarrow> error + (jsstring list \<times> log list)" where
  "traverseAppRoutes cfg appRootFolder =
     (case addExtraRoutes (extraRoutes cfg) of
        Inl e \<Rightarrow> Inl e
      | Inr (extra, log1) \<Rightarrow>
          (let (routes, log2) = staticRoutes cfg appRootFolder;
               allRoutes = routes @ extra
           in Inr (if find isRoot allRoutes = None then allRoutes @ [js ''/''] else allRoutes,
                   log1 @ log2)))"

section \<open>Transfer state service (browser side)\<close>

subsection \<open>Data\<close>

text \<open>
  \<open>State\<close> maps keys to values that the service never inspects. The value of the
  \<open>BehaviorSubject\<close> is a \<open>State\<close> or \<open>undefined\<close> (\<open>None\<close>).
\<close>

type_synonym 'v state = "jsstring \<rightharpoonup> 'v"

definition SCULLY_SCRIPT_ID :: jsstring where
  "SCULLY_SCRIPT_ID = js ''ScullyIO-transfer-state''"

definition SCULLY_STATE_START :: jsstring where
  "SCULLY_STATE_START = js ''/** ___SCULLY_STATE_START___ */''"

definition SCULLY_STATE_END :: jsstring where
  "SCULLY_STATE_END = js ''/** ___SCULLY_STATE_END___ */''"

definition initialStateDone :: jsstring where
  "initialStateDone = js ''__done__with__Initial__navigation__''"

text \<open>
  The router events the service looks at: \<open>NavigationStart url\<close>,
  \<open>NavigationEnd url urlAfterRedirects\<close>, and any other event.
\<close>

datatype router_event =
    NavigationStart jsstring
  | NavigationEnd jsstring jsstring
  | OtherEvent

text \<open>
  A call of \<open>fetchHttp\<close> is recorded as a request; the network answers it later with a
  body or not at all.
\<close>

datatype kind = AsJson | AsText

record request =
  req_url :: jsstring
  req_kind :: kind

datatype reply = NetworkError | Body jsstring

text \<open>
  What the service reads from its surroundings: the helpers \<open>isScullyRunning\<close>,
  \<open>isScullyGenerated\<close> and \<open>mergePaths\<close>, the fields of \<open>window\<close>, and the JSON
  functions of the platform. \<open>parse\<close> gives \<open>None\<close> where \<open>JSON.parse\<close> throws, and
  what it returns is taken to be an object, as the types of the source declare.
  \<open>stringify\<close> gives \<open>None\<close> where \<open>JSON.stringify\<close> throws its \<open>TypeError\<close> (a cyclic
  value, a BigInt).
\<close>

record 'v env =
  isScullyRunning :: bool
  isScullyGenerated :: bool
  inlineStateOnly :: bool
  exposedTransferState :: "'v state option"
  pathname :: jsstring
  windowState :: "'v state option"
  mergePaths :: "jsstring \<Rightarrow> jsstring \<Rightarrow> jsstring"
  parse :: "jsstring \<Rightarrow> 'v state option"
  stringify :: "'v state \<Rightarrow> jsstring option"

text \<open>
  One subscription made at the end of \<open>fetchTransferState\<close>: \<open>outer\<close> holds while
  \<open>takeWhile\<close> has not ended it, \<open>inner\<close> is the read that \<open>switchMap\<close> is waiting for
  (its index in the list of requests, and how it is read).
\<close>

record tracker =
  outer :: bool
  inner :: "(nat \<times> kind) option"

text \<open>
  The fields of the service, the state of the \<open>nextUrl\<close> pipeline (\<open>subscribed\<close>: it is
  connected to the router; \<open>awaited\<close>: the start URL whose \<open>NavigationEnd\<close> the second
  \<open>switchMap\<close> waits for; \<open>replay\<close>: the buffer of \<open>shareReplay(1)\<close>), the calls of
  \<open>fetchTransferState\<close> that are suspended (\<open>scheduled\<close>: before their timeout;
  \<open>waiting\<close>: for the first URL), and what the service has done to the outside.
  \<open>initialUrl\<close> is \<open>None\<close> while the field is \<open>undefined\<close>; \<open>currentBaseUrl\<close> is
  \<open>None\<close> when \<open>base\<close> found no part in the URL and returned \<open>undefined\<close>.
\<close>

record 'v service =
  script :: "jsstring option"
  inlineOnly :: bool
  initialUrl :: "jsstring option"
  currentBaseUrl :: "jsstring option"
  stateBS :: "'v state option"
  subscribed :: bool
  awaited :: "jsstring option"
  replay :: "jsstring option"
  scheduled :: nat
  waiting :: nat
  trackers :: "tracker list"
  requests :: "request list"
  warnings :: "error list"
  uncaught :: "error list"

definition newService :: "'v service" where
  "newService =
     \<lparr>script = None, inlineOnly = False, initialUrl = None,
      currentBaseUrl = Some (js ''//''), stateBS = Some Map.empty, subscribed = False,
      awaited = None, replay = None, scheduled = 0, waiting = 0, trackers = [],
      requests = [], warnings = [], uncaught = []\<rparr>"

subsection \<open>The state store\<close>

text \<open>
  \<open>saveState\<close> writes the script element only while Scully renders the page. The
  assignment throws a \<open>TypeError\<close> without the element (\<open>setupEnvForTransferState\<close> has
  not made it) and when \<open>JSON.stringify\<close> rejects the state; nothing is written then.
  The second component of the result is what was thrown.
\<close>

definition scriptText :: "jsstring \<Rightarrow> jsstring" where
  "scriptText json =
     js ''window['' @ [0x27] @ SCULLY_SCRIPT_ID @ [0x27] @ js '']='' @
     SCULLY_STATE_START @ json @ SCULLY_STATE_END"

definition saveState :: "'v env \<Rightarrow> 'v service \<Rightarrow> 'v state \<Rightarrow> 'v service \<times> error option" where
  "saveState env s newState =
     (if isScullyRunning env
      then (case script s of
              None \<Rightarrow> (s, Some TypeError)
            | Some old \<Rightarrow>
                (case stringify env newState of
                   None \<Rightarrow> (s, Some TypeError)
                 | Some json \<Rightarrow> (s\<lparr>script := Some (scriptText json)\<rparr>, None)))
      else (s, None))"

text \<open>Spreading \<open>undefined\<close> gives no keys.\<close>

definition spread :: "'v state option \<Rightarrow> 'v state" where
  "spread v = (case v of None \<Rightarrow> Map.empty | Some m \<Rightarrow> m)"

definition setState :: "'v env \<Rightarrow> 'v service \<Rightarrow> jsstring \<Rightarrow> 'v \<Rightarrow> 'v service \<times> error option" where
  "setState env s name val =
     (let newState = (spread (stateBS s))(name \<mapsto> val)
      in saveState env (s\<lparr>stateBS := Some newState\<rparr>) newState)"

text \<open>
  \<open>getState\<close> starts \<open>fetchTransferState\<close>, which suspends at once on its timeout.
  A subscriber of the observable it returns receives \<open>current s name\<close> on subscribing:
  nothing while the snapshot is \<open>undefined\<close>, else the value at the key (\<open>None\<close> for a
  missing key).
\<close>

definition getState :: "'v service \<Rightarrow> jsstring \<Rightarrow> 'v service" where
  "getState s name = s\<lparr>scheduled := scheduled s + 1\<rparr>"

definition current :: "'v service \<Rightarrow> jsstring \<Rightarrow> 'v option option" where
  "current s name = (case stateBS s of None \<Rightarrow> None | Some m \<Rightarrow> Some (m name))"

subsection \<open>Start up\<close>

text \<open>
  While Scully renders, the script element is made and the exposed state, if any, is
  published and saved; what \<open>saveState\<close> throws there leaves \<open>startMonitoring\<close> before
  \<open>setupStartNavMonitoring\<close> is called. As for \<open>setState\<close>, the second component of
  the result is what was thrown.
\<close>

definition setupEnvForTransferState :: "'v env \<Rightarrow> 'v service \<Rightarrow> 'v service \<times> error option" where
  "setupEnvForTransferState env s =
     (if isScullyRunning env
      then (let s1 = s\<lparr>script := Some []\<rparr>
            in case exposedTransferState env of
                 Some st \<Rightarrow> saveState env (s1\<lparr>stateBS := Some st\<rparr>) st
               | None \<Rightarrow> (s1, None))
      else if isScullyGenerated env
      then (let url = (if pathname env = [] then js ''__no_NO_no__'' else pathname env);
                url' = (if url \<noteq> js ''/'' \<and> suffix (js ''/'') url then butlast url else url)
            in (s\<lparr>initialUrl := Some url',
                  stateBS := Some (case windowState env of Some st \<Rightarrow> st | None \<Rightarrow> Map.empty)\<rparr>,
                None))
      else (s, None))"

definition setupStartNavMonitoring :: "'v env \<Rightarrow> 'v service \<Rightarrow> 'v service" where
  "setupStartNavMonitoring env s =
     (if \<not> isScullyGenerated env then s else s\<lparr>subscribed := True\<rparr>)"

definition startMonitoring :: "'v env \<Rightarrow> 'v service \<Rightarrow> 'v service \<times> error option" where
  "startMonitoring env s =
     (case setupEnvForTransferState env (if inlineStateOnly env then s\<lparr>inlineOnly := True\<rparr> else s) of
        (s1, Some e) \<Rightarrow> (s1, Some e)
      | (s1, None) \<Rightarrow> (setupStartNavMonitoring env s1, None))"

subsection \<open>The route navigation observer\<close>

text \<open>
  One router event through \<open>nextUrl\<close>, up to \<open>map\<close>: the new service and the URL
  emitted, if any. A \<open>NavigationStart\<close> for the initial URL trips the latch and goes no
  further (\<open>NEVER\<close>), so the second \<open>switchMap\<close> keeps what it was waiting for. Any other
  \<open>NavigationStart\<close> publishes \<open>undefined\<close> and makes the second \<open>switchMap\<close> wait for
  its \<open>NavigationEnd\<close>.
\<close>

definition routerEvent :: "'v service \<Rightarrow> router_event \<Rightarrow> 'v service \<times> jsstring option" where
  "routerEvent s e =
     (if \<not> subscribed s then (s, None)
      else case e of
        NavigationStart url \<Rightarrow>
          (if initialUrl s = Some url then (s\<lparr>initialUrl := Some initialStateDone\<rparr>, None)
           else (s\<lparr>stateBS := None, awaited := Some url\<rparr>, None))
      | NavigationEnd url urlAfterRedirects \<Rightarrow>
          (if awaited s = Some url
           then (s\<lparr>awaited := None\<rparr>,
                 Some (if urlAfterRedirects \<noteq> [] then urlAfterRedirects else url))
           else (s, None))
      | OtherEvent \<Rightarrow> (s, None))"

subsection \<open>The rehydration driver\<close>

text \<open>The helper \<open>base\<close>: the first part of the URL that is not blank, if there is one.\<close>

definition base :: "jsstring \<Rightarrow> jsstring option" where
  "base url =
     (case filter (\<lambda>part. trim part \<noteq> []) (split url (js ''/'')) of
        [] \<Rightarrow> None
      | part # parts \<Rightarrow> Some part)"

text \<open>The call of \<open>fetchHttp\<close> that \<open>readFromIndex\<close> or \<open>readFromJson\<close> makes for a URL.\<close>

definition readRequest :: "'v env \<Rightarrow> 'v service \<Rightarrow> jsstring \<Rightarrow> request" where
  "readRequest env s url =
     (if inlineOnly s
      then \<lparr>req_url = url @ js ''/index.html'', req_kind = AsText\<rparr>
      else \<lparr>req_url = mergePaths env url (js ''/data.json''), req_kind = AsJson\<rparr>)"

text \<open>
  A URL of \<open>nextUrl\<close> reaches the subscriptions of \<open>fetchTransferState\<close> in the order
  they were made. \<open>takeWhile\<close> compares with \<open>currentBaseUrl\<close> as it is at that moment.
  While it holds, \<open>switchMap\<close> drops the read it was waiting for and starts one for
  this URL. When it fails the subscription to \<open>nextUrl\<close> ends; the subscription as a
  whole completes (resetting \<open>currentBaseUrl\<close>) once no read is in flight.
\<close>

fun deliver :: "'v env \<Rightarrow> jsstring \<Rightarrow> tracker list \<Rightarrow> 'v service \<Rightarrow> tracker list \<times> 'v service" where
  "deliver env url [] s = ([], s)"
| "deliver env url (t # ts) s =
     (if \<not> outer t then
        (let (ts', s') = deliver env url ts s in (t # ts', s'))
      else if base url = currentBaseUrl s then
        (let r = readRequest env s url;
             t' = t\<lparr>inner := Some (length (requests s), req_kind r)\<rparr>;
             (ts', s') = deliver env url ts (s\<lparr>requests := requests s @ [r]\<rparr>)
         in (t' # ts', s'))
      else if inner t = None then
        deliver env url ts (s\<lparr>currentBaseUrl := Some (js ''//'')\<rparr>)
      else
        (let (ts', s') = deliver env url ts s in (t\<lparr>outer := False\<rparr> # ts', s')))"

text \<open>
  \<open>fetchTransferState\<close> from the point where it has the current URL (what comes
  before is \<open>timeout\<close> and \<open>emit\<close> below). The new subscription receives the URL that
  \<open>shareReplay\<close> holds as soon as it is made.
\<close>

definition fetchTransferState :: "'v env \<Rightarrow> jsstring \<Rightarrow> 'v service \<Rightarrow> 'v service" where
  "fetchTransferState env currentUrl s =
     (let baseUrl = base currentUrl
      in if currentBaseUrl s = baseUrl then s
         else (let s1 = s\<lparr>currentBaseUrl := baseUrl\<rparr>;
                   t = \<lparr>outer = True, inner = None\<rparr>
               in case replay s1 of
                    None \<Rightarrow> s1\<lparr>trackers := trackers s1 @ [t]\<rparr>
                  | Some url \<Rightarrow>
                      (let (ts', s') = deliver env url [t] s1
                       in s'\<lparr>trackers := trackers s' @ ts'\<rparr>)))"

text \<open>
  The timeout of one suspended call of \<open>fetchTransferState\<close> fires: it subscribes to
  \<open>nextUrl\<close> and goes on with the replayed URL, or waits for the first one.
\<close>

definition timeout :: "'v env \<Rightarrow> 'v service \<Rightarrow> 'v service" where
  "timeout env s =
     (if scheduled s = 0 then s
      else (let s1 = s\<lparr>scheduled := scheduled s - 1, subscribed := True\<rparr>
            in case replay s1 of
                 Some url \<Rightarrow> fetchTransferState env url s1
               | None \<Rightarrow> s1\<lparr>waiting := waiting s1 + 1\<rparr>))"

text \<open>
  \<open>nextUrl\<close> emits a URL: it is kept for replay, handed to the subscriptions, and then
  the calls that waited for it go on.
\<close>

definition emit :: "'v env \<Rightarrow> jsstring \<Rightarrow> 'v service \<Rightarrow> 'v service" where
  "emit env url s =
     (let (ts', s1) = deliver env url (trackers s) (s\<lparr>replay := Some url\<rparr>);
          s2 = s1\<lparr>trackers := ts', waiting := 0\<rparr>
      in (fetchTransferState env url ^^ waiting s) s2)"

subsection \<open>Reading the state\<close>

text \<open>
  Modelled from the spec: \<open>fetchHttp\<close> of utils/fetchHttp, which is not among the
  sources ("retrieves a resource (JSON or text) by URL; returns a parsed result or
  rejects"), applied to the answer of the network. This is the use for JSON.
\<close>

definition fetchHttpJson :: "'v env \<Rightarrow> reply \<Rightarrow> error + 'v state" where
  "fetchHttpJson env r =
     (case r of
        NetworkError \<Rightarrow> Inl FetchError
      | Body b \<Rightarrow> (case parse env b of None \<Rightarrow> Inl SyntaxError | Some st \<Rightarrow> Inr st))"

text \<open>
  Modelled from the spec: \<open>fetchHttp\<close> asked for text, which hands the body on as it is.
\<close>

definition fetchHttpText :: "reply \<Rightarrow> error + jsstring" where
  "fetchHttpText r = (case r of NetworkError \<Rightarrow> Inl FetchError | Body b \<Rightarrow> Inr b)"

text \<open>
  The callback of \<open>readFromIndex\<close>. \<open>html.split(START)[1]\<close> is \<open>undefined\<close> when the
  start marker does not occur, and the call of \<open>split\<close> on it throws.
\<close>

definition stateText :: "jsstring \<Rightarrow> error + jsstring" where
  "stateText html =
     (case split html SCULLY_STATE_START of
        before # rest # others \<Rightarrow>
          (case split rest SCULLY_STATE_END of
             newStateStr # others \<Rightarrow> Inr newStateStr
           | [] \<Rightarrow> Inl SyntaxError)
      | _ \<Rightarrow> Inl TypeError)"

definition readFromIndex :: "'v env \<Rightarrow> reply \<Rightarrow> error + 'v state" where
  "readFromIndex env r =
     (case fetchHttpText r of
        Inl e \<Rightarrow> Inl e
      | Inr html \<Rightarrow>
          (case stateText html of
             Inl e \<Rightarrow> Inl e
           | Inr newStateStr \<Rightarrow>
               (case parse env newStateStr of None \<Rightarrow> Inl SyntaxError | Some st \<Rightarrow> Inr st)))"

definition readFromJson :: "'v env \<Rightarrow> reply \<Rightarrow> error + 'v state" where
  "readFromJson env r = fetchHttpJson env r"

definition readResult :: "'v env \<Rightarrow> kind \<Rightarrow> reply \<Rightarrow> error + 'v state" where
  "readResult env k r = (case k of AsText \<Rightarrow> readFromIndex env r | AsJson \<Rightarrow> readFromJson env r)"

text \<open>
  What passes down the pipeline of the subscription. After \<open>switchMap\<close>: the state
  read, followed by completion when \<open>takeWhile\<close> has already ended, or the error.
  \<open>catchError\<close> warns and replaces an error by \<open>of({})\<close>. \<open>tap\<close> publishes; the
  subscriber resets \<open>currentBaseUrl\<close> on completion and has no error handler, so an
  error reaching it would be reported as uncaught.
\<close>

datatype 'a notification = Next 'a | Error error | Complete

definition switchMapOut :: "bool \<Rightarrow> error + 'v state \<Rightarrow> 'v state notification list" where
  "switchMapOut outerActive r =
     (case r of
        Inl e \<Rightarrow> [Error e]
      | Inr st \<Rightarrow> Next st # (if outerActive then [] else [Complete]))"

fun catchError :: "'v service \<Rightarrow> 'v state notification list \<Rightarrow> 'v service \<times> 'v state notification list" where
  "catchError s [] = (s, [])"
| "catchError s (Error e # ns) = (s\<lparr>warnings := warnings s @ [e]\<rparr>, [Next Map.empty, Complete])"
| "catchError s (n # ns) = (let (s', ns') = catchError s ns in (s', n # ns'))"

fun observer :: "'v service \<Rightarrow> 'v state notification \<Rightarrow> 'v service" where
  "observer s (Next newState) = s\<lparr>stateBS := Some newState\<rparr>"
| "observer s Complete = s\<lparr>currentBaseUrl := Some (js ''//'')\<rparr>"
| "observer s (Error e) = s\<lparr>uncaught := uncaught s @ [e]\<rparr>"

definition finished :: "'a notification list \<Rightarrow> bool" where
  "finished ns = list_ex (\<lambda>n. case n of Next x \<Rightarrow> False | _ \<Rightarrow> True) ns"

text \<open>
  The network answers request \<open>i\<close>. Only the subscription that still waits for it
  listens; an answer to a read that \<open>switchMap\<close> has dropped goes nowhere.
\<close>

fun settle :: "'v env \<Rightarrow> nat \<Rightarrow> reply \<Rightarrow> tracker list \<Rightarrow> 'v service \<Rightarrow> tracker list \<times> 'v service" where
  "settle env i r [] s = ([], s)"
| "settle env i r (t # ts) s =
     (case inner t of
        Some (j, k) \<Rightarrow>
          (if j = i then
             (let (s1, ns) = catchError s (switchMapOut (outer t) (readResult env k r));
                  s2 = foldl observer s1 ns
              in (if finished ns then ts else t\<lparr>inner := None\<rparr> # ts, s2))
           else (let (ts', s') = settle env i r ts s in (t # ts', s')))
      | None \<Rightarrow> (let (ts', s') = settle env i r ts s in (t # ts', s')))"

definition onReply :: "'v env \<Rightarrow> nat \<Rightarrow> reply \<Rightarrow> 'v service \<Rightarrow> 'v service" where
  "onReply env i r s = (let (ts', s') = settle env i r (trackers s) s in s'\<lparr>trackers := ts'\<rparr>)"

subsection \<open>Runs of the service\<close>

datatype 'v event =
    StartMonitoring
  | GetState jsstring
  | SetState jsstring 'v
  | Router router_event
  | Timeout
  | Reply nat reply

definition onRouterEvent :: "'v env \<Rightarrow> 'v service \<Rightarrow> router_event \<Rightarrow> 'v service" where
  "onRouterEvent env s e =
     (case routerEvent s e of (s', None) \<Rightarrow> s' | (s', Some url) \<Rightarrow> emit env url s')"

fun step :: "'v env \<Rightarrow> 'v service \<Rightarrow> 'v event \<Rightarrow> 'v service" where
  "step env s StartMonitoring = fst (startMonitoring env s)"
| "step env s (GetState name) = getState s name"
| "step env s (SetState name val) = fst (setState env s name val)"
| "step env s (Router e) = onRouterEvent env s e"
| "step env s Timeout = timeout env s"
| "step env s (Reply i r) = onReply env i r s"

definition run :: "'v env \<Rightarrow> 'v event list \<Rightarrow> 'v service" where
  "run env es = foldl (step env) newService es"

text \<open>The URLs that \<open>nextUrl\<close> emits over a sequence of router events.\<close>

fun nextUrl :: "'v env \<Rightarrow> 'v service \<Rightarrow> router_event list \<Rightarrow> jsstring list" where
  "nextUrl env s [] = []"
| "nextUrl env s (e # es) =
     (case routerEvent s e of
        (s', None) \<Rightarrow> nextUrl env s' es
      | (s', Some url) \<Rightarrow> url # nextUrl env (emit env url s') es)"

subsection \<open>Sequences of navigations\<close>

text \<open>
  A navigation is given by the URL it starts for and the URL after redirects; it shows
  as a \<open>NavigationStart\<close> followed by its \<open>NavigationEnd\<close>. \<open>resolved\<close> is the URL that
  \<open>nextUrl\<close> emits for it.
\<close>

definition navigation :: "jsstring \<times> jsstring \<Rightarrow> router_event list" where
  "navigation n = [NavigationStart (fst n), NavigationEnd (fst n) (snd n)]"

definition resolved :: "jsstring \<times> jsstring \<Rightarrow> jsstring" where
  "resolved n = (if snd n \<noteq> [] then snd n else fst n)"

section \<open>Example surroundings\<close>

text \<open>
  A project whose manifest is found one level up and yields the route \<open>/blog\<close>, with
  extra routes given as a string, a deferred array and a repeated string.
\<close>

definition demoConfig :: config where
  "demoConfig =
     \<lparr>extraRoutes =
        Arr [Str (js ''/about''), Promise 0 (Some (Arr [Str (js ''/blog/1'')])),
             Str (js ''/about'')],
      excludedFiles = None, sge = False,
      join = (\<lambda>a b. a @ js ''/'' @ b),
      existFolder = (\<lambda>f. f = js ''app/../tsconfig.app.json''),
      parseAngularRoutes =
        (\<lambda>f ex. if f = js ''app/../tsconfig.app.json'' then Inr [js ''/blog'']
                 else Inl ParserError)\<rparr>"

text \<open>
  A page generated by Scully and opened in the browser at \<open>/home/\<close>, whose document
  carries the state \<open>{"a":7}\<close>. \<open>demoParse\<close> stands for \<open>JSON.parse\<close> on the two texts
  used below and rejects any other; \<open>demoStringify\<close> stands for \<open>JSON.stringify\<close> on
  states with the keys \<open>a\<close> and \<open>b\<close> and values below ten; paths are merged by
  concatenation.
\<close>

definition demoParse :: "jsstring \<Rightarrow> nat state option" where
  \<open>demoParse b =
     (if b = js ''{}'' then Some Map.empty
      else if b = js ''{"a":1}'' then Some [js ''a'' \<mapsto> 1]
      else None)\<close>

definition digit :: "nat \<Rightarrow> jsstring" where
  "digit n = [of_nat (48 + n)]"

definition demoStringify :: "nat state \<Rightarrow> jsstring option" where
  \<open>demoStringify st =
     Some (js ''{''
       @ (case st (js ''a'') of Some x \<Rightarrow> js ''"a":'' @ digit x | None \<Rightarrow> [])
       @ (case (st (js ''a''), st (js ''b'')) of (Some x, Some y) \<Rightarrow> js '','' | _ \<Rightarrow> [])
       @ (case st (js ''b'') of Some y \<Rightarrow> js ''"b":'' @ digit y | None \<Rightarrow> [])
       @ js ''}'')\<close>

definition browserEnv :: "nat env" where
  "browserEnv =
     \<lparr>isScullyRunning = False, isScullyGenerated = True, inlineStateOnly = False,
      exposedTransferState = None, pathname = js ''/home/'',
      windowState = Some [js ''a'' \<mapsto> 7],
      mergePaths = (\<lambda>a b. a @ b), parse = demoParse, stringify = demoStringify\<rparr>"


definition visit :: "jsstring \<Rightarrow> nat event list" where
  "visit url = [Router (NavigationStart url), Router (NavigationEnd url url)]"

definition openBlog :: "nat event list" where
  "openBlog =
     StartMonitoring # visit (js ''/home'') @ visit (js ''/blog/a'') @ [GetState (js ''a''), Timeout]"


definition blogLoaded :: "nat event list" where
  \<open>blogLoaded = openBlog @ [Reply 0 (Body (js ''{"a":1}''))]\<close>

text \<open>
  The same application opened at \<open>/home/?ref=x\<close>, so that the first navigation is for
  \<open>/home?ref=x\<close>: it goes to \<open>/blog/a\<close>, reads the state of that page, and comes back
  to \<open>/home\<close>.
\<close>

definition blogThenHome :: "nat event list" where
  \<open>blogThenHome =
     StartMonitoring # visit (js ''/home?ref=x'') @ visit (js ''/blog/a'')
     @ [GetState (js ''a''), Timeout, Reply 0 (Body (js ''{"a":1}''))]
     @ visit (js ''/home'')\<close>

text \<open>
  Scully rendering the page \<open>/blog/a\<close>, with the state \<open>{"a":7}\<close> exposed to the service.
  In \<open>rendering\<close> the service is started before it is used; in \<open>unstarted\<close> it is not.
\<close>

definition renderEnv :: "nat env" where
  "renderEnv =
     \<lparr>isScullyRunning = True, isScullyGenerated = False, inlineStateOnly = False,
      exposedTransferState = Some [js ''a'' \<mapsto> 7], pathname = js ''/blog/a'',
      windowState = None,
      mergePaths = (\<lambda>a b. a @ b), parse = demoParse, stringify = demoStringify\<rparr>"

definition unstarted :: "nat event list" where
  "unstarted = [GetState (js ''a''), Timeout, Router (NavigationStart (js ''/blog/a''))]"

definition rendering :: "nat event list" where
  "rendering = StartMonitoring # unstarted"

section \<open>Properties of route discovery\<close>

lemma trim_root: "trim (js ''/'') = js ''/''"
  by (simp add: trim_def js_def isWhiteSpace_def)

text \<open>
  An array of strings: the result has the same strings, each once. (The examples of C9
  below fix the order as well.)
\<close>

lemma includes_js_strings: "includes_js (map Str acc) (Str x) \<longleftrightarrow> x \<in> set acc"
  by (induction acc) (auto simp: includes_js_def)

lemma fillWorkList_strings:
  "\<exists>ys. fillWorkList (map Str acc) (map Str xs) = map Str (acc @ ys)
        \<and> set ys = set xs - set acc \<and> distinct ys"
proof (induction xs arbitrary: acc)
  case Nil
  then show ?case by simp
next
  case (Cons x xs)
  show ?case
  proof (cases "x \<in> set acc")
    case True
    from Cons.IH [of acc] obtain ys where
      "fillWorkList (map Str acc) (map Str xs) = map Str (acc @ ys)"
      "set ys = set xs - set acc" "distinct ys" by blast
    then show ?thesis using True by (auto simp: includes_js_strings)
  next
    case False
    from Cons.IH [of "acc @ [x]"] obtain ys where ys:
      "fillWorkList (map Str (acc @ [x])) (map Str xs) = map Str ((acc @ [x]) @ ys)"
      "set ys = set xs - set (acc @ [x])" "distinct ys" by blast
    have "fillWorkList (map Str acc) (map Str (x # xs)) = map Str (acc @ (x # ys))"
      using False ys(1) by (simp add: includes_js_strings)
    moreover have "set (x # ys) = set (x # xs) - set acc"
      using False ys(2) by auto
    moreover have "distinct (x # ys)"
      using ys(2,3) by auto
    ultimately show ?thesis by blast
  qed
qed

lemma collectRoutes_strings: "collectRoutes acc (map Str ys) = Inr (acc @ ys)"
  by (induction ys arbitrary: acc) simp_all

lemma addExtraRoutes_string_array:
  "\<exists>ys. addExtraRoutes (Arr (map Str xs)) = Inr (ys, []) \<and> set ys = set xs \<and> distinct ys"
proof -
  from fillWorkList_strings [of "[]" xs] obtain ys where
    "fillWorkList [] (map Str xs) = map Str ys" "set ys = set xs" "distinct ys" by auto
  then show ?thesis
    using collectRoutes_strings [of "[]" ys] by (auto simp: addExtraRoutes_def)
qed

text \<open>
  C1. A single deferred value that resolves to the array \<open>["c","d"]\<close> should give
  \<open>["c","d"]\<close>. The code gives the empty list: the result of \<open>concat\<close> is dropped.
\<close>

theorem addExtraRoutes_deferred_array_empty:
  "addExtraRoutes (Promise 0 (Some (Arr [Str (js ''c''), Str (js ''d'')]))) = Inr ([], [])"
  by (simp add: addExtraRoutes_def)

text \<open>
  C9, as amended. The string \<open>"a"\<close> gives \<open>["a"]\<close>; the array \<open>["a","b","a"]\<close> gives
  \<open>["a","b"]\<close>; a truthy value that is neither a string, an array nor a deferred value,
  such as the number 42, gives the empty list and one warning that names its type; a
  falsy value gives the empty list and no warning.
\<close>

theorem addExtraRoutes_shapes:
  "addExtraRoutes (Str (js ''a'')) = Inr ([js ''a''], [])
   \<and> addExtraRoutes (Arr [Str (js ''a''), Str (js ''b''), Str (js ''a'')]) =
       Inr ([js ''a'', js ''b''], [])
   \<and> addExtraRoutes (Num 42) = Inr ([], [WarnExtraRoutesType ''number''])
   \<and> (truthy x \<and> typeof x \<noteq> ''string'' \<and> \<not> isArray x \<and> \<not> isPromise x \<longrightarrow>
        addExtraRoutes x = Inr ([], [WarnExtraRoutesType (typeof x)]))
   \<and> (\<not> truthy x \<longrightarrow> addExtraRoutes x = Inr ([], []))"
proof -
  have examples: "addExtraRoutes (Str (js ''a'')) = Inr ([js ''a''], [])
      \<and> addExtraRoutes (Arr [Str (js ''a''), Str (js ''b''), Str (js ''a'')]) =
          Inr ([js ''a'', js ''b''], [])
      \<and> addExtraRoutes (Num 42) = Inr ([], [WarnExtraRoutesType ''number''])"
    by (simp add: addExtraRoutes_def includes_js_def js_def)
  have other: "truthy x \<and> typeof x \<noteq> ''string'' \<and> \<not> isArray x \<and> \<not> isPromise x \<longrightarrow>
      addExtraRoutes x = Inr ([], [WarnExtraRoutesType (typeof x)])"
    by (cases x) (simp_all add: addExtraRoutes_def)
  have falsy: "\<not> truthy x \<longrightarrow> addExtraRoutes x = Inr ([], [])"
    by (simp add: addExtraRoutes_def)
  show ?thesis
    using examples other falsy by blast
qed

theorem addExtraRoutes_shapes_witness:
  "truthy (Obj 0) \<and> typeof (Obj 0) \<noteq> ''string'' \<and> \<not> isArray (Obj 0) \<and> \<not> isPromise (Obj 0)
   \<and> addExtraRoutes (Obj 0) = Inr ([], [WarnExtraRoutesType ''object''])
   \<and> \<not> truthy Null
   \<and> addExtraRoutes Null = Inr ([], [])"
  using addExtraRoutes_shapes [of "Obj 0"] addExtraRoutes_shapes [of Null]
  by simp

text \<open>
  C9 as stated fails: 0 and \<open>undefined\<close> are neither strings, arrays nor deferred
  values, and for them the first test of \<open>addExtraRoutes\<close> returns the empty list
  before anything is logged.
\<close>

theorem addExtraRoutes_falsy_no_warning:
  "typeof (Num 0) = ''number'' \<and> \<not> isArray (Num 0) \<and> \<not> isPromise (Num 0)
   \<and> addExtraRoutes (Num 0) = Inr ([], [])
   \<and> typeof Undefined = ''undefined'' \<and> \<not> isArray Undefined \<and> \<not> isPromise Undefined
   \<and> addExtraRoutes Undefined = Inr ([], [])"
  by (simp add: addExtraRoutes_def)

text \<open>
  C8. \<open>traverseAppRoutes\<close> returns the routes read from the source followed by the
  extra routes, and appends \<open>/\<close> exactly when no entry trims to \<open>/\<close> or to the empty
  string; when \<open>/\<close> is among the entries nothing is appended.
\<close>

theorem traverseAppRoutes_root:
  assumes "addExtraRoutes (extraRoutes cfg) = Inr (extra, log1)"
    and "staticRoutes cfg appRootFolder = (routes, log2)"
  shows "traverseAppRoutes cfg appRootFolder =
           Inr (routes @ extra @
                  (if \<exists>r \<in> set (routes @ extra). trim r = js ''/'' \<or> trim r = [] then []
                   else [js ''/'']),
                log1 @ log2)
         \<and> (js ''/'' \<in> set (routes @ extra) \<longrightarrow>
              traverseAppRoutes cfg appRootFolder = Inr (routes @ extra, log1 @ log2))"
proof -
  have root: "isRoot (js ''/'')"
    by (simp add: isRoot_def trim_root)
  have none: "find isRoot (routes @ extra) = None \<longleftrightarrow>
      \<not> (\<exists>r \<in> set (routes @ extra). trim r = js ''/'' \<or> trim r = [])"
    by (auto simp: find_None_iff isRoot_def)
  have present: "js ''/'' \<in> set (routes @ extra) \<Longrightarrow> find isRoot (routes @ extra) \<noteq> None"
    using root by (auto simp: find_None_iff)
  show ?thesis
    using assms none present by (auto simp: traverseAppRoutes_def Let_def)
qed

theorem traverseAppRoutes_root_witness:
  "addExtraRoutes (extraRoutes demoConfig) = Inr ([js ''/about'', js ''/blog/1''], [])
   \<and> staticRoutes demoConfig (js ''app'') = ([js ''/blog''], [])
   \<and> traverseAppRoutes demoConfig (js ''app'') =
       Inr ([js ''/blog'', js ''/about'', js ''/blog/1'', js ''/''], [])"
proof -
  have h1: "addExtraRoutes (extraRoutes demoConfig) = Inr ([js ''/about'', js ''/blog/1''], [])"
    by code_simp
  have h2: "staticRoutes demoConfig (js ''app'') = ([js ''/blog''], [])"
    by code_simp
  have h3: "\<not> (\<exists>r \<in> set ([js ''/blog''] @ [js ''/about'', js ''/blog/1'']).
               trim r = js ''/'' \<or> trim r = [])"
    by code_simp
  show ?thesis
    using h1 h2 h3 traverseAppRoutes_root [OF h1 h2] by simp
qed

section \<open>Lemmas about the service\<close>

subsection \<open>A URL with the base that is tracked\<close>

lemma readRequest_requests [simp]:
  "readRequest env (s\<lparr>requests := rs\<rparr>) url = readRequest env s url"
  by (simp add: readRequest_def)

lemma deliver_same_base:
  "base url = currentBaseUrl s \<Longrightarrow>
   snd (deliver env url ts s) =
     s\<lparr>requests := requests s @ replicate (length (filter outer ts)) (readRequest env s url)\<rparr>
   \<and> map outer (fst (deliver env url ts s)) = map outer ts"
proof (induction ts arbitrary: s)
  case Nil
  then show ?case by simp
next
  case (Cons t ts)
  show ?case
  proof (cases "outer t")
    case False
    with Cons show ?thesis by (simp add: split_beta)
  next
    case True
    let ?s = "s\<lparr>requests := requests s @ [readRequest env s url]\<rparr>"
    have "base url = currentBaseUrl ?s" using Cons.prems by simp
    from Cons.IH [OF this] True Cons.prems show ?thesis
      by (simp add: split_beta Let_def replicate_append_same)
  qed
qed

lemma fetchTransferState_same_base:
  "currentBaseUrl s = base url \<Longrightarrow> fetchTransferState env url s = s"
  by (simp add: fetchTransferState_def)

lemma funpow_fixed: "f x = x \<Longrightarrow> (f ^^ n) x = x"
  by (induction n) simp_all

lemma emit_same_base:
  assumes "base url = currentBaseUrl s"
  shows "emit env url s =
     s\<lparr>replay := Some url,
       requests := requests s @ replicate (length (filter outer (trackers s))) (readRequest env s url),
       trackers := fst (deliver env url (trackers s) (s\<lparr>replay := Some url\<rparr>)),
       waiting := 0\<rparr>"
proof -
  let ?s0 = "s\<lparr>replay := Some url\<rparr>"
  have b: "base url = currentBaseUrl ?s0" using assms by simp
  have rr: "readRequest env ?s0 url = readRequest env s url" by (simp add: readRequest_def)
  note d = deliver_same_base [OF b, of env "trackers s"]
  let ?s2 = "(snd (deliver env url (trackers s) ?s0))\<lparr>trackers := fst (deliver env url (trackers s) ?s0), waiting := 0\<rparr>"
  have c: "currentBaseUrl ?s2 = base url" using d assms by simp
  have "emit env url s = (fetchTransferState env url ^^ waiting s) ?s2"
    by (simp add: emit_def split_beta Let_def)
  also have "\<dots> = ?s2" by (rule funpow_fixed) (rule fetchTransferState_same_base [OF c])
  finally show ?thesis using d rr by simp
qed

lemma count_outer:
  "map outer xs = map outer ys \<Longrightarrow> length (filter outer xs) = length (filter outer ys)"
proof (induction xs arbitrary: ys)
  case Nil
  then show ?case by simp
next
  case (Cons x xs)
  then obtain y ys' where ys: "ys = y # ys'" "outer x = outer y" "map outer xs = map outer ys'"
    by (cases ys) auto
  then show ?case using Cons.IH [of ys'] by simp
qed

lemma emit_same_base_fields:
  assumes "base url = currentBaseUrl s"
  shows "requests (emit env url s) =
           requests s @ replicate (length (filter outer (trackers s))) (readRequest env s url)"
    and "map outer (trackers (emit env url s)) = map outer (trackers s)"
    and "currentBaseUrl (emit env url s) = currentBaseUrl s"
    and "stateBS (emit env url s) = stateBS s"
    and "inlineOnly (emit env url s) = inlineOnly s"
    and "replay (emit env url s) = Some url"
proof -
  have b: "base url = currentBaseUrl (s\<lparr>replay := Some url\<rparr>)"
    using assms by simp
  have m: "map outer (fst (deliver env url (trackers s) (s\<lparr>replay := Some url\<rparr>))) =
      map outer (trackers s)"
    using deliver_same_base [OF b, of env "trackers s"] by simp
  note e = emit_same_base [OF assms, of env]
  show "requests (emit env url s) =
           requests s @ replicate (length (filter outer (trackers s))) (readRequest env s url)"
    by (simp add: e)
  show "map outer (trackers (emit env url s)) = map outer (trackers s)"
    by (simp add: e m)
  show "currentBaseUrl (emit env url s) = currentBaseUrl s"
    by (simp add: e)
  show "stateBS (emit env url s) = stateBS s"
    by (simp add: e)
  show "inlineOnly (emit env url s) = inlineOnly s"
    by (simp add: e)
  show "replay (emit env url s) = Some url"
    by (simp add: e)
qed

subsection \<open>Answers of the network\<close>

lemma settle_skip:
  "\<forall>t \<in> set ts1. \<forall>k. inner t \<noteq> Some (i, k) \<Longrightarrow>
   settle env i r (ts1 @ ts) s = (ts1 @ fst (settle env i r ts s), snd (settle env i r ts s))"
proof (induction ts1)
  case Nil
  then show ?case by simp
next
  case (Cons t ts1)
  then show ?case by (cases "inner t") (auto simp: split_beta)
qed

lemma onReply_failure:
  assumes "trackers s = ts1 @ t # ts2"
    and "\<forall>t' \<in> set ts1. \<forall>k'. inner t' \<noteq> Some (i, k')"
    and "inner t = Some (i, k)"
    and "readResult env k r = Inl e"
  shows "onReply env i r s =
     s\<lparr>stateBS := Some Map.empty, warnings := warnings s @ [e],
       currentBaseUrl := Some (js ''//''), trackers := ts1 @ ts2\<rparr>"
  using assms by (simp add: onReply_def settle_skip switchMapOut_def finished_def split_beta)

subsection \<open>Splitting at a marker\<close>

lemma split_go_none:
  "\<not> sublist sep s \<Longrightarrow> split_go sep cur s = [rev cur @ s]"
proof (induction s arbitrary: cur)
  case Nil
  then show ?case by simp
next
  case (Cons c cs)
  have a: "\<not> prefix sep (c # cs)" using Cons.prems prefix_imp_sublist by blast
  have b: "\<not> sublist sep cs" using Cons.prems by (simp add: sublist_Cons_right)
  have "split_go sep cur (c # cs) = split_go sep (c # cur) cs"
    using a by (simp only: split_go.simps if_False simp_thms)
  then show ?case using Cons.IH [OF b, of "c # cur"] by simp
qed



lemma START_nonempty: "SCULLY_STATE_START \<noteq> []"
  by (simp add: SCULLY_STATE_START_def js_def)



lemma stateText_no_start:
  "\<not> sublist SCULLY_STATE_START html \<Longrightarrow> stateText html = Inl TypeError"
  using split_go_none [of SCULLY_STATE_START html "[]"]
  by (simp add: stateText_def split_def START_nonempty)

lemma stateBS_NoneI: "current s k = None \<Longrightarrow> stateBS s = None"
  by (simp add: current_def split: option.splits)



subsection \<open>The script element\<close>

text \<open>
  Only \<open>setupEnvForTransferState\<close> and \<open>saveState\<close> touch the script element, and
  neither removes it: once the service has been started while Scully renders, the
  element is there in every later state.
\<close>

lemma deliver_script: "script (snd (deliver env url ts s)) = script s"
  by (induction ts arbitrary: s) (simp_all add: split_beta Let_def)

lemma fetchTransferState_script: "script (fetchTransferState env url s) = script s"
  by (simp add: fetchTransferState_def Let_def split_beta deliver_script split: option.splits)

lemma fetchTransferState_pow_script: "script ((fetchTransferState env url ^^ n) s) = script s"
  by (induction n) (simp_all add: fetchTransferState_script)

lemma emit_script: "script (emit env url s) = script s"
  by (simp add: emit_def split_beta Let_def fetchTransferState_pow_script deliver_script)

lemma onRouterEvent_script: "script (onRouterEvent env s e) = script s"
  by (cases e) (simp_all add: onRouterEvent_def routerEvent_def emit_script)

lemma timeout_script: "script (timeout env s) = script s"
  by (simp add: timeout_def Let_def fetchTransferState_script split: option.splits)

lemma catchError_script: "script (fst (catchError s ns)) = script s"
  by (induction s ns rule: catchError.induct) (simp_all add: split_beta)

lemma observer_script: "script (observer s n) = script s"
  by (cases n) simp_all

lemma foldl_observer_script: "script (foldl observer s ns) = script s"
  by (induction ns arbitrary: s) (simp_all add: observer_script)

lemma settle_script: "script (snd (settle env i r ts s)) = script s"
proof (induction ts)
  case Nil
  then show ?case by simp
next
  case (Cons t ts)
  then show ?case
    by (cases "inner t")
      (auto simp: split_beta Let_def foldl_observer_script catchError_script)
qed

lemma onReply_script: "script (onReply env i r s) = script s"
  by (simp add: onReply_def split_beta settle_script)

lemma startMonitoring_script:
  "isScullyRunning env \<Longrightarrow> script (fst (startMonitoring env s)) \<noteq> None"
  by (auto simp: startMonitoring_def setupStartNavMonitoring_def setupEnvForTransferState_def
      saveState_def Let_def split: option.splits prod.splits)

lemma step_script:
  "isScullyRunning env \<Longrightarrow> script s \<noteq> None \<Longrightarrow> script (step env s e) \<noteq> None"
proof (cases e)
  case StartMonitoring
  assume "isScullyRunning env"
  then show ?thesis using StartMonitoring by (simp add: startMonitoring_script)
next
  case (GetState name)
  assume "script s \<noteq> None"
  then show ?thesis using GetState by (simp add: getState_def)
next
  case (SetState name val)
  assume "script s \<noteq> None"
  then show ?thesis using SetState
    by (auto simp: setState_def saveState_def Let_def split: option.splits)
next
  case (Router ev)
  assume "script s \<noteq> None"
  then show ?thesis using Router by (simp add: onRouterEvent_script)
next
  case Timeout
  assume "script s \<noteq> None"
  then show ?thesis using Timeout by (simp add: timeout_script)
next
  case (Reply i r)
  assume "script s \<noteq> None"
  then show ?thesis using Reply by (simp add: onReply_script)
qed

lemma steps_script:
  "isScullyRunning env \<Longrightarrow> script s \<noteq> None \<Longrightarrow> script (foldl (step env) s es) \<noteq> None"
proof (induction es arbitrary: s)
  case Nil
  then show ?case by simp
next
  case (Cons e es)
  have "script (step env s e) \<noteq> None"
    using Cons.prems by (rule step_script)
  then have "script (foldl (step env) (step env s e) es) \<noteq> None"
    using Cons.prems(1) by (intro Cons.IH)
  then show ?case by simp
qed

lemma started_has_script:
  "isScullyRunning env \<Longrightarrow> script (run env (StartMonitoring # es)) \<noteq> None"
  by (simp add: run_def steps_script startMonitoring_script)

section \<open>Properties of the transfer state service\<close>

subsection \<open>The state store\<close>

text \<open>
  C7. After \<open>setState(k, v)\<close> a reader of key \<open>k\<close> receives \<open>v\<close>, and a reader of any
  other key receives what the previous snapshot held for it. This is so whether or not
  \<open>saveState\<close> could write the script element.
\<close>

theorem setState_then_read:
  "current (getState (fst (setState env s k v)) k) k = Some (Some v)
   \<and> (\<forall>m k'. stateBS s = Some m \<and> k' \<noteq> k \<longrightarrow>
         current (getState (fst (setState env s k v)) k') k' = Some (m k'))"
  by (simp add: setState_def saveState_def getState_def current_def spread_def Let_def
      split: option.splits)

theorem setState_then_read_witness:
  "current (getState (fst (setState browserEnv (run browserEnv [StartMonitoring]) (js ''b'') 2))
      (js ''b'')) (js ''b'') = Some (Some 2)
   \<and> stateBS (run browserEnv [StartMonitoring]) = Some [js ''a'' \<mapsto> 7]
   \<and> js ''a'' \<noteq> js ''b''
   \<and> current (getState (fst (setState browserEnv (run browserEnv [StartMonitoring]) (js ''b'') 2))
      (js ''a'')) (js ''a'') = Some (Some 7)"
proof -
  let ?s = "run browserEnv [StartMonitoring]"
  have h1: "stateBS ?s = Some [js ''a'' \<mapsto> 7]"
    by (simp add: run_def startMonitoring_def setupEnvForTransferState_def
        setupStartNavMonitoring_def browserEnv_def newService_def Let_def)
  have h2: "js ''a'' \<noteq> js ''b''"
    by (simp add: js_def)
  from setState_then_read [of browserEnv ?s "js ''b''" 2] h1 h2
  show ?thesis by simp
qed

text \<open>
  C10, as amended. When the snapshot is \<open>undefined\<close>, \<open>setState(name, val)\<close> publishes
  the snapshot with the single key \<open>name\<close>: every other key is absent, whatever earlier
  snapshots held. It returns without throwing exactly when Scully is not rendering the
  page, or the script element exists and \<open>JSON.stringify\<close> accepts the new snapshot;
  otherwise it throws a \<open>TypeError\<close>, after publishing. (The element exists in every run
  that begins with \<open>startMonitoring\<close>, see \<open>started_has_script\<close>.)
\<close>

theorem setState_on_undefined:
  assumes "stateBS s = None"
  shows "stateBS (fst (setState env s name val)) = Some [name \<mapsto> val]
     \<and> (\<forall>k. k \<noteq> name \<longrightarrow> current (fst (setState env s name val)) k = Some None)
     \<and> (snd (setState env s name val) = None \<longleftrightarrow>
          \<not> isScullyRunning env
          \<or> (script s \<noteq> None \<and> stringify env [name \<mapsto> val] \<noteq> None))
     \<and> (snd (setState env s name val) = None
          \<or> snd (setState env s name val) = Some TypeError)"
  using assms
  by (auto simp: setState_def saveState_def current_def spread_def Let_def split: option.splits)

theorem setState_on_undefined_witness:
  \<open>current (run renderEnv [StartMonitoring]) (js ''a'') = Some (Some 7)
   \<and> stateBS (run renderEnv rendering) = None
   \<and> isScullyRunning renderEnv
   \<and> script (run renderEnv rendering) = Some (scriptText (js ''{"a":7}''))
   \<and> stringify renderEnv [js ''b'' \<mapsto> 2] = Some (js ''{"b":2}'')
   \<and> stateBS (fst (setState renderEnv (run renderEnv rendering) (js ''b'') 2)) =
       Some [js ''b'' \<mapsto> 2]
   \<and> js ''a'' \<noteq> js ''b''
   \<and> current (fst (setState renderEnv (run renderEnv rendering) (js ''b'') 2)) (js ''a'') =
       Some None
   \<and> snd (setState renderEnv (run renderEnv rendering) (js ''b'') 2) = None
   \<and> script (fst (setState renderEnv (run renderEnv rendering) (js ''b'') 2)) =
       Some (scriptText (js ''{"b":2}''))\<close>
proof -
  let ?s = "run renderEnv rendering"
  have h0: "current (run renderEnv [StartMonitoring]) (js ''a'') = Some (Some 7)"
    by code_simp
  have "current ?s (js ''a'') = None"
    by code_simp
  then have h1: "stateBS ?s = None"
    by (rule stateBS_NoneI)
  have h2: "isScullyRunning renderEnv"
    by (simp add: renderEnv_def)
  have h3: \<open>script ?s = Some (scriptText (js ''{"a":7}''))\<close>
    by code_simp
  have h4: "js ''a'' \<noteq> js ''b''"
    by (simp add: js_def)
  have h5: \<open>stringify renderEnv [js ''b'' \<mapsto> 2] = Some (js ''{"b":2}'')\<close>
    using h4 by (simp add: renderEnv_def demoStringify_def digit_def js_def)
  have h6: \<open>script (fst (setState renderEnv ?s (js ''b'') 2)) = Some (scriptText (js ''{"b":2}''))\<close>
    using h1 h2 h3 h5 by (simp add: setState_def saveState_def spread_def)
  from setState_on_undefined [OF h1, of renderEnv "js ''b''" 2] h0 h1 h2 h3 h4 h5 h6
  show ?thesis by simp
qed

text \<open>
  C10 as stated fails: while Scully renders, a service that was never started has no
  script element. Its snapshot becomes \<open>undefined\<close> at the start of a navigation all the
  same, once \<open>getState\<close> has subscribed to \<open>nextUrl\<close>, and \<open>setState\<close> then throws.
\<close>

theorem setState_unstarted_throws:
  "isScullyRunning renderEnv
   \<and> stateBS (run renderEnv unstarted) = None
   \<and> script (run renderEnv unstarted) = None
   \<and> snd (setState renderEnv (run renderEnv unstarted) (js ''b'') 2) = Some TypeError"
proof -
  have "current (run renderEnv unstarted) (js ''a'') = None"
    by code_simp
  then have h1: "stateBS (run renderEnv unstarted) = None"
    by (rule stateBS_NoneI)
  have h2: "isScullyRunning renderEnv
      \<and> script (run renderEnv unstarted) = None
      \<and> snd (setState renderEnv (run renderEnv unstarted) (js ''b'') 2) = Some TypeError"
    by code_simp
  show ?thesis
    using h1 h2 by simp
qed

subsection \<open>The route navigation observer\<close>

text \<open>
  C4. \<open>nextUrl\<close> should leave out the first navigation when it is for the initial URL
  and emit every other one. The code keeps its latch set until a navigation for the
  initial URL comes. Here the initial URL is \<open>/home\<close> and the first navigation is for
  \<open>/home?ref=x\<close>, which is emitted: the later navigation to \<open>/home\<close>, which is not the
  initial load, is swallowed. The snapshot is not reset and nothing is read for \<open>/home\<close>,
  so the key \<open>a\<close> still reads what \<open>/blog/a\<close> gave it.
\<close>

theorem later_initial_navigation_suppressed:
  \<open>initialUrl (run browserEnv [StartMonitoring]) = Some (js ''/home'')
   \<and> map resolved
        [(js ''/home?ref=x'', js ''/home?ref=x''), (js ''/blog/a'', js ''/blog/a''),
         (js ''/home'', js ''/home'')] = [js ''/home?ref=x'', js ''/blog/a'', js ''/home'']
   \<and> nextUrl browserEnv (run browserEnv [StartMonitoring])
        (concat (map navigation
           [(js ''/home?ref=x'', js ''/home?ref=x''), (js ''/blog/a'', js ''/blog/a''),
            (js ''/home'', js ''/home'')])) = [js ''/home?ref=x'', js ''/blog/a'']
   \<and> current (run browserEnv blogThenHome) (js ''a'') = Some (Some 1)
   \<and> requests (run browserEnv blogThenHome) =
       [\<lparr>req_url = js ''/blog/a/data.json'', req_kind = AsJson\<rparr>]\<close>
  by code_simp

subsection \<open>The rehydration driver\<close>

text \<open>
  C2, as amended. Given two consecutive resolved URLs whose base is the one being
  tracked, every subscription of the driver that is still following \<open>nextUrl\<close> starts
  one read for the first URL and one for the second; no subscription is added or ended.
  With the single subscription of a page that makes two reads.
\<close>

theorem same_base_reads_each_url:
  assumes "base url1 = currentBaseUrl s" and "base url2 = base url1"
  shows "requests (emit env url2 (emit env url1 s)) =
           requests s
           @ replicate (length (filter outer (trackers s))) (readRequest env s url1)
           @ replicate (length (filter outer (trackers s))) (readRequest env s url2)
         \<and> map outer (trackers (emit env url2 (emit env url1 s))) = map outer (trackers s)"
proof -
  let ?s1 = "emit env url1 s"
  note f1 = emit_same_base_fields [OF assms(1), of env]
  have b2: "base url2 = currentBaseUrl ?s1"
    using assms f1(3) by simp
  note f2 = emit_same_base_fields [OF b2, of env]
  have n: "length (filter outer (trackers ?s1)) = length (filter outer (trackers s))"
    using f1(2) by (rule count_outer)
  have r: "readRequest env ?s1 url2 = readRequest env s url2"
    using f1(5) by (simp add: readRequest_def)
  show ?thesis
    using f1(1,2) f2(1,2) n r by simp
qed

theorem same_base_reads_each_url_witness:
  "base (js ''/blog/b'') = currentBaseUrl (run browserEnv openBlog)
   \<and> base (js ''/blog/c'') = base (js ''/blog/b'')
   \<and> requests (emit browserEnv (js ''/blog/c'')
         (emit browserEnv (js ''/blog/b'') (run browserEnv openBlog))) =
       [\<lparr>req_url = js ''/blog/a/data.json'', req_kind = AsJson\<rparr>,
        \<lparr>req_url = js ''/blog/b/data.json'', req_kind = AsJson\<rparr>,
        \<lparr>req_url = js ''/blog/c/data.json'', req_kind = AsJson\<rparr>]
   \<and> map outer (trackers (emit browserEnv (js ''/blog/c'')
         (emit browserEnv (js ''/blog/b'') (run browserEnv openBlog)))) = [True]"
proof -
  let ?s = "run browserEnv openBlog"
  have h1: "base (js ''/blog/b'') = currentBaseUrl ?s"
    by code_simp
  have h2: "base (js ''/blog/c'') = base (js ''/blog/b'')"
    by code_simp
  have h3: "requests ?s
           @ replicate (length (filter outer (trackers ?s))) (readRequest browserEnv ?s (js ''/blog/b''))
           @ replicate (length (filter outer (trackers ?s))) (readRequest browserEnv ?s (js ''/blog/c'')) =
       [\<lparr>req_url = js ''/blog/a/data.json'', req_kind = AsJson\<rparr>,
        \<lparr>req_url = js ''/blog/b/data.json'', req_kind = AsJson\<rparr>,
        \<lparr>req_url = js ''/blog/c/data.json'', req_kind = AsJson\<rparr>]"
    by code_simp
  have h4: "map outer (trackers ?s) = [True]"
    by code_simp
  from same_base_reads_each_url [OF h1 h2, of browserEnv] h1 h2 h3 h4
  show ?thesis by (simp only: simp_thms)
qed

text \<open>
  C2 as stated fails: \<open>/blog/a\<close> and \<open>/blog/b\<close> are consecutive resolved URLs with the
  same first segment, and the driver fetches \<open>data.json\<close> for each of them.
\<close>

theorem second_url_is_fetched:
  "base (js ''/blog/a'') = base (js ''/blog/b'')
   \<and> nextUrl browserEnv (run browserEnv [StartMonitoring])
        (concat (map navigation
           [(js ''/home'', js ''/home''), (js ''/blog/a'', js ''/blog/a''),
            (js ''/blog/b'', js ''/blog/b'')])) = [js ''/blog/a'', js ''/blog/b'']
   \<and> requests (run browserEnv (openBlog @ visit (js ''/blog/b''))) =
       [\<lparr>req_url = js ''/blog/a/data.json'', req_kind = AsJson\<rparr>,
        \<lparr>req_url = js ''/blog/b/data.json'', req_kind = AsJson\<rparr>]"
  by code_simp

text \<open>
  C5, as amended. A resolved URL whose base is the one being tracked changes neither
  the snapshot nor the tracked base, and adds or ends no subscription; each
  subscription that follows \<open>nextUrl\<close> starts a read for it. The \<open>undefined\<close> snapshot
  has been published before, when that navigation started, as for every navigation that
  is not the suppressed initial one, whatever its base.
\<close>

theorem same_base_keeps_tracking:
  assumes "base url = currentBaseUrl s"
  shows "stateBS (emit env url s) = stateBS s
     \<and> currentBaseUrl (emit env url s) = currentBaseUrl s
     \<and> map outer (trackers (emit env url s)) = map outer (trackers s)
     \<and> requests (emit env url s) =
         requests s @ replicate (length (filter outer (trackers s))) (readRequest env s url)
     \<and> (subscribed s \<and> initialUrl s \<noteq> Some start \<longrightarrow>
          stateBS (onRouterEvent env s (NavigationStart start)) = None)"
  using emit_same_base_fields [OF assms, of env]
  by (simp add: onRouterEvent_def routerEvent_def)

theorem same_base_keeps_tracking_witness:
  "base (js ''/blog/b'') = currentBaseUrl (run browserEnv blogLoaded)
   \<and> subscribed (run browserEnv blogLoaded)
   \<and> initialUrl (run browserEnv blogLoaded) \<noteq> Some (js ''/blog/b'')
   \<and> stateBS (emit browserEnv (js ''/blog/b'') (run browserEnv blogLoaded)) =
       stateBS (run browserEnv blogLoaded)
   \<and> currentBaseUrl (emit browserEnv (js ''/blog/b'') (run browserEnv blogLoaded)) =
       Some (js ''blog'')
   \<and> map outer (trackers (emit browserEnv (js ''/blog/b'') (run browserEnv blogLoaded))) = [True]
   \<and> requests (emit browserEnv (js ''/blog/b'') (run browserEnv blogLoaded)) =
       [\<lparr>req_url = js ''/blog/a/data.json'', req_kind = AsJson\<rparr>,
        \<lparr>req_url = js ''/blog/b/data.json'', req_kind = AsJson\<rparr>]
   \<and> stateBS (onRouterEvent browserEnv (run browserEnv blogLoaded)
         (NavigationStart (js ''/blog/b''))) = None"
proof -
  let ?s = "run browserEnv blogLoaded"
  have h1: "base (js ''/blog/b'') = currentBaseUrl ?s"
    by code_simp
  have h2: "subscribed ?s \<and> initialUrl ?s \<noteq> Some (js ''/blog/b'')"
    by code_simp
  have h3: "currentBaseUrl ?s = Some (js ''blog'')"
    by code_simp
  have h4: "map outer (trackers ?s) = [True]"
    by code_simp
  have h5: "requests ?s @ replicate (length (filter outer (trackers ?s)))
        (readRequest browserEnv ?s (js ''/blog/b'')) =
       [\<lparr>req_url = js ''/blog/a/data.json'', req_kind = AsJson\<rparr>,
        \<lparr>req_url = js ''/blog/b/data.json'', req_kind = AsJson\<rparr>]"
    by code_simp
  from same_base_keeps_tracking [OF h1, of browserEnv "js ''/blog/b''"] h1 h2 h3 h4 h5
  show ?thesis by (simp only: simp_thms)
qed

text \<open>
  C5 as stated fails: while \<open>blog\<close> is tracked and the snapshot holds \<open>a\<close>, the start of
  the navigation to \<open>/blog/b\<close> publishes \<open>undefined\<close>, and its end starts a second read.
\<close>

theorem same_base_navigation_resets_snapshot:
  "currentBaseUrl (run browserEnv blogLoaded) = base (js ''/blog/b'')
   \<and> current (run browserEnv blogLoaded) (js ''a'') = Some (Some 1)
   \<and> current (run browserEnv (blogLoaded @ [Router (NavigationStart (js ''/blog/b''))]))
        (js ''a'') = None
   \<and> requests (run browserEnv blogLoaded) =
       [\<lparr>req_url = js ''/blog/a/data.json'', req_kind = AsJson\<rparr>]
   \<and> requests (run browserEnv (blogLoaded @ visit (js ''/blog/b''))) =
       [\<lparr>req_url = js ''/blog/a/data.json'', req_kind = AsJson\<rparr>,
        \<lparr>req_url = js ''/blog/b/data.json'', req_kind = AsJson\<rparr>]"
  by code_simp




text \<open>
  C6. When the read that a subscription waits for fails, the driver publishes the empty
  object, logs the error as a warning, reports no uncaught error, and ends that
  subscription, resetting the tracked base. A read fails when the fetch is rejected,
  when the text does not parse as JSON, and in inline mode when the start marker is
  missing from the document or the text after it does not parse.
\<close>

theorem read_failure_publishes_empty:
  assumes "trackers s = ts1 @ t # ts2"
    and "\<forall>t' \<in> set ts1. \<forall>k'. inner t' \<noteq> Some (i, k')"
    and "inner t = Some (i, k)"
    and "readResult env k r = Inl e"
  shows "onReply env i r s =
           s\<lparr>stateBS := Some Map.empty, warnings := warnings s @ [e],
             currentBaseUrl := Some (js ''//''), trackers := ts1 @ ts2\<rparr>
         \<and> uncaught (onReply env i r s) = uncaught s
         \<and> readResult env k NetworkError = Inl FetchError
         \<and> (parse env b = None \<longrightarrow> readResult env AsJson (Body b) = Inl SyntaxError)
         \<and> (\<not> sublist SCULLY_STATE_START html \<longrightarrow>
              readResult env AsText (Body html) = Inl TypeError)
         \<and> (stateText html = Inr b \<and> parse env b = None \<longrightarrow>
              readResult env AsText (Body html) = Inl SyntaxError)"
proof -
  have main: "onReply env i r s =
           s\<lparr>stateBS := Some Map.empty, warnings := warnings s @ [e],
             currentBaseUrl := Some (js ''//''), trackers := ts1 @ ts2\<rparr>"
    using assms by (rule onReply_failure)
  have modes: "readResult env k NetworkError = Inl FetchError"
    by (simp add: readResult_def readFromIndex_def readFromJson_def fetchHttpJson_def
        fetchHttpText_def split: kind.splits)
  have json: "parse env b = None \<Longrightarrow> readResult env AsJson (Body b) = Inl SyntaxError"
    by (simp add: readResult_def readFromJson_def fetchHttpJson_def)
  have nostart: "\<not> sublist SCULLY_STATE_START html \<Longrightarrow>
      readResult env AsText (Body html) = Inl TypeError"
    by (simp add: readResult_def readFromIndex_def fetchHttpText_def stateText_no_start)
  have slice: "stateText html = Inr b \<Longrightarrow> parse env b = None \<Longrightarrow>
      readResult env AsText (Body html) = Inl SyntaxError"
    by (simp add: readResult_def readFromIndex_def fetchHttpText_def)
  show ?thesis
    using main modes json nostart slice by simp
qed

theorem read_failure_publishes_empty_witness:
  "trackers (run browserEnv openBlog) = [] @ \<lparr>outer = True, inner = Some (0, AsJson)\<rparr> # []
   \<and> inner \<lparr>outer = True, inner = Some (0, AsJson)\<rparr> = Some (0, AsJson)
   \<and> readResult browserEnv AsJson (Body (js ''<html>'')) = Inl SyntaxError
   \<and> current (onReply browserEnv 0 (Body (js ''<html>'')) (run browserEnv openBlog)) (js ''a'') =
       Some None
   \<and> warnings (onReply browserEnv 0 (Body (js ''<html>'')) (run browserEnv openBlog)) =
       [SyntaxError]
   \<and> uncaught (onReply browserEnv 0 (Body (js ''<html>'')) (run browserEnv openBlog)) = []
   \<and> parse browserEnv (js ''<html>'') = None
   \<and> \<not> sublist SCULLY_STATE_START (js ''<html>'')
   \<and> readResult browserEnv AsText (Body (js ''<html>'')) = Inl TypeError
   \<and> stateText (SCULLY_STATE_START @ js ''<html>'') = Inr (js ''<html>'')
   \<and> readResult browserEnv AsText (Body (SCULLY_STATE_START @ js ''<html>'')) = Inl SyntaxError"
proof -
  let ?s = "run browserEnv openBlog"
  let ?t = "\<lparr>outer = True, inner = Some (0 :: nat, AsJson)\<rparr>"
  have h1: "trackers ?s = [] @ ?t # []"
    by code_simp
  have h2: "\<forall>t' \<in> set []. \<forall>k'. inner t' \<noteq> Some (0 :: nat, k')"
    by simp
  have h3: "inner ?t = Some (0, AsJson)"
    by simp
  have h4: "readResult browserEnv AsJson (Body (js ''<html>'')) = Inl SyntaxError"
    by (simp add: readResult_def readFromJson_def fetchHttpJson_def browserEnv_def demoParse_def
        js_def)
  have h5: "parse browserEnv (js ''<html>'') = None"
    by (simp add: browserEnv_def demoParse_def js_def)
  have h6: "\<not> sublist SCULLY_STATE_START (js ''<html>'')"
    by code_simp
  have h7: "stateText (SCULLY_STATE_START @ js ''<html>'') = Inr (js ''<html>'')"
    by code_simp
  have w: "warnings ?s = []" and u: "uncaught ?s = []"
    by code_simp+
  note inst1 = read_failure_publishes_empty [OF h1 h2 h3 h4, of "js ''<html>''" "js ''<html>''"]
  note inst2 = read_failure_publishes_empty [OF h1 h2 h3 h4, of "js ''<html>''"
      "SCULLY_STATE_START @ js ''<html>''"]
  show ?thesis
    using inst1 inst2 h1 h4 h5 h6 h7 w u by (simp add: current_def)
qed

end
